theory Spec2Isabelle
  imports Complex_Main "HOL-Library.Multiset"
begin

section \<open>Data model (shared/types.ts, MusicManager.ts)\<close>

text \<open>
  The per-guild playback queue manager of the bot, \<^verbatim>\<open>MusicManager.ts\<close>, and the
  \<^verbatim>\<open>/play\<close> command handler that guards \<^verbatim>\<open>joinChannel\<close>.

  \<^item> \<^verbatim>\<open>Track\<close> and \<^verbatim>\<open>Queue\<close> are the interfaces of \<^verbatim>\<open>shared/types.ts\<close>; the field
    \<^verbatim>\<open>id\<close> of a track is called \<open>track_id\<close> here.
  \<^item> JavaScript numbers that hold counts, indices, seconds and volumes are integers
    (\<open>int\<close>); \<^verbatim>\<open>NaN\<close> and fractional numbers are outside the model.
  \<^item> A JavaScript \<^verbatim>\<open>Map\<close> is a partial function from keys to values.
  \<^item> An exception is a value of type \<open>error\<close>; a function that can throw returns
    \<open>error + 'a\<close>.
\<close>

record requester =
  requester_id :: string
  username :: string
  avatar :: "string option"

datatype source = Youtube | Spotify | Demo

record track =
  track_id :: string
  title :: string
  duration :: int
  thumbnail :: "string option"
  url :: string
  requester :: requester
  source :: source

datatype loop_mode = LoopNone | LoopTrack | LoopQueue

record queue =
  tracks :: "track list"
  currentTrack :: "track option"
  isPlaying :: bool
  isPaused :: bool
  volume :: int
  loop :: loop_mode
  shuffle :: bool

text \<open>
  Of a discord.js voice channel the code reads \<^verbatim>\<open>id\<close>, \<^verbatim>\<open>guild.id\<close> and \<^verbatim>\<open>name\<close>;
  a text channel is only stored. The voice connection and the audio player of a
  \<^verbatim>\<open>GuildConnection\<close> are objects of the voice library: the calls the manager makes on
  the player are returned as \<open>player_cmd\<close> values, and the status events the player
  sends back are the handlers \<open>on_Playing\<close>, \<open>on_Paused\<close> and \<open>on_Idle\<close> below.
\<close>

record voice_channel =
  vc_id :: string
  vc_guild_id :: string
  vc_name :: string

record guild_connection =
  voiceChannel :: voice_channel
  textChannel :: "string option"

datatype spotify_api = SpotifyWebApi

record manager =
  connections :: "string \<rightharpoonup> guild_connection"
  queues :: "string \<rightharpoonup> queue"
  spotify :: "spotify_api option"

datatype player_cmd = PlayerPlay string | PlayerPause | PlayerUnpause | PlayerStop

datatype error =
    NoVideoFound
  | SpotifyNotConfigured
  | InvalidSpotifyUrl
  | NoYouTubeEquivalent
  | NoResultsFound
  | ProviderFailure
  | TypeError

subsection \<open>The external providers\<close>

text \<open>
  What the providers answer is an input of the model. \<open>search\<close> is play-dl's
  \<^verbatim>\<open>search(query, {limit: 1})\<close>, \<open>getTrack\<close> is the Spotify client's \<^verbatim>\<open>getTrack\<close>
  (its \<^verbatim>\<open>body\<close>), \<open>stream\<close> tells whether play-dl's \<^verbatim>\<open>stream(url)\<close> delivers a
  stream, and \<open>entersReady\<close> whether the voice connection of a channel becomes ready
  within the 30 seconds \<^verbatim>\<open>joinChannel\<close> waits. A rejected promise is \<open>Inl\<close>.
\<close>

record video =
  video_id :: string
  video_title :: string
  durationInSec :: "int option"
  thumbnails :: "string list"
  video_url :: string

record spotify_track =
  artists :: "string list"
  sp_name :: string
  duration_ms :: int
  album_images :: "string list"

record env =
  search :: "string \<Rightarrow> error + video list"
  getTrack :: "string \<Rightarrow> error + spotify_track"
  stream :: "string \<Rightarrow> bool"
  entersReady :: "voice_channel \<Rightarrow> bool"

section \<open>Query classification\<close>

fun startsWith :: "string \<Rightarrow> string \<Rightarrow> bool" where
  "startsWith [] s = True"
| "startsWith (p # ps) [] = False"
| "startsWith (p # ps) (c # cs) = (p = c \<and> startsWith ps cs)"

text \<open>\<^verbatim>\<open>/^(https?:\/\/)?(www\.)?(youtube\.com|youtu\.be)/\<close>: each optional group is
  either matched or skipped.\<close>

definition youtubeHost :: "string \<Rightarrow> bool" where
  "youtubeHost s = (startsWith ''youtube.com'' s \<or> startsWith ''youtu.be'' s)"

definition youtubeWww :: "string \<Rightarrow> bool" where
  "youtubeWww s = ((startsWith ''www.'' s \<and> youtubeHost (drop 4 s)) \<or> youtubeHost s)"

definition isYouTubeUrl :: "string \<Rightarrow> bool" where
  "isYouTubeUrl u =
     ((startsWith ''http://'' u \<and> youtubeWww (drop 7 u)) \<or>
      (startsWith ''https://'' u \<and> youtubeWww (drop 8 u)) \<or>
      youtubeWww u)"

text \<open>\<^verbatim>\<open>/^https?:\/\/open\.spotify\.com\/track\//\<close>\<close>

definition isSpotifyUrl :: "string \<Rightarrow> bool" where
  "isSpotifyUrl u =
     (startsWith ''http://open.spotify.com/track/'' u \<or>
      startsWith ''https://open.spotify.com/track/'' u)"

definition alnum :: "char \<Rightarrow> bool" where
  "alnum c = (c \<in> set (''abcdefghijklmnopqrstuvwxyz'' @ ''ABCDEFGHIJKLMNOPQRSTUVWXYZ'' @ ''0123456789''))"

text \<open>\<^verbatim>\<open>url.match(/track\/([a-zA-Z0-9]+)/)\<close>: the leftmost position where \<^verbatim>\<open>track/\<close>
  is followed by at least one letter or digit; the group is the longest such run.\<close>

fun extractSpotifyTrackId :: "string \<Rightarrow> string option" where
  "extractSpotifyTrackId [] = None"
| "extractSpotifyTrackId (c # cs) =
     (if startsWith ''track/'' (c # cs) \<and> takeWhile alnum (drop 6 (c # cs)) \<noteq> []
      then Some (takeWhile alnum (drop 6 (c # cs)))
      else extractSpotifyTrackId cs)"

section \<open>Track resolution\<close>

definition firstOf :: "'a list \<Rightarrow> 'a option" where
  "firstOf xs = (case xs of [] \<Rightarrow> None | x # _ \<Rightarrow> Some x)"

definition videoTrack :: "video \<Rightarrow> requester \<Rightarrow> track" where
  "videoTrack v r =
     \<lparr> track_id = video_id v,
       title = video_title v,
       duration = (case durationInSec v of None \<Rightarrow> 0 | Some d \<Rightarrow> d),
       thumbnail = firstOf (thumbnails v),
       url = video_url v,
       requester = r,
       source = Youtube \<rparr>"

definition getYouTubeTrack :: "env \<Rightarrow> string \<Rightarrow> requester \<Rightarrow> error + track" where
  "getYouTubeTrack e u r =
     (case search e u of
        Inl err \<Rightarrow> Inl err
      | Inr info \<Rightarrow>
          (case info of
             [] \<Rightarrow> Inl NoVideoFound
           | v # _ \<Rightarrow> Inr (videoTrack v r)))"

definition searchYouTube :: "env \<Rightarrow> string \<Rightarrow> requester \<Rightarrow> error + track" where
  "searchYouTube e q r =
     (case search e q of
        Inl err \<Rightarrow> Inl err
      | Inr results \<Rightarrow>
          (case results of
             [] \<Rightarrow> Inl NoResultsFound
           | v # _ \<Rightarrow> Inr (videoTrack v r)))"

definition getSpotifyTrack :: "env \<Rightarrow> manager \<Rightarrow> string \<Rightarrow> requester \<Rightarrow> error + track" where
  "getSpotifyTrack e m u r =
     (case spotify m of
        None \<Rightarrow> Inl SpotifyNotConfigured
      | Some _ \<Rightarrow>
          (case extractSpotifyTrackId u of
             None \<Rightarrow> Inl InvalidSpotifyUrl
           | Some trackId \<Rightarrow>
               (case getTrack e trackId of
                  Inl err \<Rightarrow> Inl err
                | Inr body \<Rightarrow>
                    (case artists body of
                       [] \<Rightarrow> Inl TypeError
                     | artist # _ \<Rightarrow>
                         (case search e (artist @ '' '' @ sp_name body) of
                            Inl err \<Rightarrow> Inl err
                          | Inr youtubeResults \<Rightarrow>
                              (case youtubeResults of
                                 [] \<Rightarrow> Inl NoYouTubeEquivalent
                               | v # _ \<Rightarrow>
                                   Inr \<lparr> track_id = video_id v,
                                         title = artist @ '' - '' @ sp_name body,
                                         duration = duration_ms body div 1000,
                                         thumbnail = firstOf (album_images body),
                                         url = video_url v,
                                         requester = r,
                                         source = Spotify \<rparr>))))))"

text \<open>The dispatch at the head of \<^verbatim>\<open>addTrack\<close> (lines 127 to 134).\<close>

definition resolveQuery :: "env \<Rightarrow> manager \<Rightarrow> string \<Rightarrow> requester \<Rightarrow> error + track" where
  "resolveQuery e m query r =
     (if isYouTubeUrl query then getYouTubeTrack e query r
      else if isSpotifyUrl query then getSpotifyTrack e m query r
      else searchYouTube e query r)"

section \<open>Playback operations\<close>

definition getQueue :: "string \<Rightarrow> manager \<Rightarrow> queue option" where
  "getQueue guildId m = queues m guildId"

definition getConnection :: "string \<Rightarrow> manager \<Rightarrow> guild_connection option" where
  "getConnection guildId m = connections m guildId"

definition setQueue :: "string \<Rightarrow> queue \<Rightarrow> manager \<Rightarrow> manager" where
  "setQueue guildId q m = m\<lparr>queues := (queues m)(guildId \<mapsto> q)\<rparr>"

text \<open>\<^verbatim>\<open>play\<close> changes nothing in the manager: it asks the provider for a stream of the
  current track and hands it to the player.\<close>

definition play :: "env \<Rightarrow> string \<Rightarrow> manager \<Rightarrow> bool \<times> player_cmd list" where
  "play e guildId m =
     (case connections m guildId of
        None \<Rightarrow> (False, [])
      | Some _ \<Rightarrow>
          (case queues m guildId of
             None \<Rightarrow> (False, [])
           | Some q \<Rightarrow>
               (case currentTrack q of
                  None \<Rightarrow> (False, [])
                | Some t \<Rightarrow>
                    if stream e (url t) then (True, [PlayerPlay (url t)]) else (False, []))))"

definition playNext :: "env \<Rightarrow> string \<Rightarrow> manager \<Rightarrow> player_cmd list \<times> manager" where
  "playNext e guildId m =
     (case queues m guildId of
        None \<Rightarrow> ([], m)
      | Some q \<Rightarrow>
          (case tracks q of
             [] \<Rightarrow> ([], m)
           | nextTrack # rest \<Rightarrow>
               (let m' = setQueue guildId (q\<lparr>tracks := rest, currentTrack := Some nextTrack\<rparr>) m
                in (snd (play e guildId m'), m'))))"

definition addTrack ::
  "env \<Rightarrow> string \<Rightarrow> string \<Rightarrow> requester \<Rightarrow> manager \<Rightarrow> (track option \<times> player_cmd list) \<times> manager" where
  "addTrack e guildId query r m =
     (case resolveQuery e m query r of
        Inl _ \<Rightarrow> ((None, []), m)
      | Inr t \<Rightarrow>
          (case queues m guildId of
             None \<Rightarrow> ((Some t, []), m)
           | Some q \<Rightarrow>
               (let q' = q\<lparr>tracks := tracks q @ [t]\<rparr>;
                    m' = setQueue guildId q' m
                in if \<not> isPlaying q' \<and> currentTrack q' = None
                   then (case playNext e guildId m' of (cmds, m'') \<Rightarrow> ((Some t, cmds), m''))
                   else ((Some t, []), m'))))"

definition pause :: "string \<Rightarrow> manager \<Rightarrow> bool \<times> player_cmd list" where
  "pause guildId m =
     (case connections m guildId of None \<Rightarrow> (False, []) | Some _ \<Rightarrow> (True, [PlayerPause]))"

definition resume :: "string \<Rightarrow> manager \<Rightarrow> bool \<times> player_cmd list" where
  "resume guildId m =
     (case connections m guildId of None \<Rightarrow> (False, []) | Some _ \<Rightarrow> (True, [PlayerUnpause]))"

definition skip :: "string \<Rightarrow> manager \<Rightarrow> bool \<times> player_cmd list" where
  "skip guildId m =
     (case connections m guildId of None \<Rightarrow> (False, []) | Some _ \<Rightarrow> (True, [PlayerStop]))"

definition stop :: "string \<Rightarrow> manager \<Rightarrow> (bool \<times> player_cmd list) \<times> manager" where
  "stop guildId m =
     (case connections m guildId of
        None \<Rightarrow> ((False, []), m)
      | Some _ \<Rightarrow>
          (case queues m guildId of
             None \<Rightarrow> ((False, []), m)
           | Some q \<Rightarrow>
               ((True, [PlayerStop]),
                setQueue guildId (q\<lparr>tracks := [], currentTrack := None\<rparr>) m)))"

text \<open>
  \<^verbatim>\<open>shuffle\<close> (here \<open>shuffle_op\<close>, since \<open>shuffle\<close> is the queue's flag). The loop
  \<^verbatim>\<open>for (let i = length - 1; i > 0; i--)\<close> draws \<^verbatim>\<open>j = Math.floor(Math.random() * (i + 1))\<close>
  and swaps the entries \<open>i\<close> and \<open>j\<close>. The random numbers are an input: \<open>rnd k\<close> is the
  \<open>k\<close>-th value \<^verbatim>\<open>Math.random()\<close> returns, a number in the interval from 0 (included) to
  1 (excluded), which keeps \<open>j\<close> between 0 and \<open>i\<close>.
\<close>

fun shuffleLoop :: "(nat \<Rightarrow> real) \<Rightarrow> nat \<Rightarrow> nat \<Rightarrow> 'a list \<Rightarrow> 'a list" where
  "shuffleLoop rnd k 0 xs = xs"
| "shuffleLoop rnd k (Suc i) xs =
     (let j = nat \<lfloor>rnd k * real (Suc i + 1)\<rfloor>
      in shuffleLoop rnd (Suc k) i (xs[Suc i := xs ! j, j := xs ! Suc i]))"

text \<open>The whole loop, started at \<^verbatim>\<open>i = length - 1\<close>.\<close>

definition fisherYates :: "(nat \<Rightarrow> real) \<Rightarrow> 'a list \<Rightarrow> 'a list" where
  "fisherYates rnd xs = shuffleLoop rnd 0 (length xs - 1) xs"

definition shuffle_op :: "(nat \<Rightarrow> real) \<Rightarrow> string \<Rightarrow> manager \<Rightarrow> bool \<times> manager" where
  "shuffle_op rnd guildId m =
     (case queues m guildId of
        None \<Rightarrow> (False, m)
      | Some q \<Rightarrow>
          (let q1 = q\<lparr>shuffle := \<not> shuffle q\<rparr>;
               q2 = (if shuffle q1 \<and> length (tracks q1) > 1
                     then q1\<lparr>tracks := fisherYates rnd (tracks q1)\<rparr>
                     else q1)
           in (True, setQueue guildId q2 m)))"

definition setVolume :: "string \<Rightarrow> int \<Rightarrow> manager \<Rightarrow> bool \<times> manager" where
  "setVolume guildId v m =
     (case queues m guildId of
        None \<Rightarrow> (False, m)
      | Some q \<Rightarrow> (True, setQueue guildId (q\<lparr>volume := max 0 (min 100 v)\<rparr>) m))"

text \<open>\<^verbatim>\<open>tracks.splice(index, 1)\<close> with \<open>index\<close> in range removes the entry at \<open>index\<close>.\<close>

definition removeTrack :: "string \<Rightarrow> int \<Rightarrow> manager \<Rightarrow> bool \<times> manager" where
  "removeTrack guildId index m =
     (case queues m guildId of
        None \<Rightarrow> (False, m)
      | Some q \<Rightarrow>
          if index < 0 \<or> index \<ge> int (length (tracks q)) then (False, m)
          else (True,
                setQueue guildId
                  (q\<lparr>tracks := take (nat index) (tracks q) @ drop (Suc (nat index)) (tracks q)\<rparr>) m))"

definition disconnect :: "string \<Rightarrow> manager \<Rightarrow> bool \<times> manager" where
  "disconnect guildId m =
     (case connections m guildId of
        None \<Rightarrow> (False, m)
      | Some _ \<Rightarrow>
          (True, m\<lparr>connections := (connections m)(guildId := None),
                   queues := (queues m)(guildId := None)\<rparr>))"

text \<open>\<^verbatim>\<open>cleanup(guildId?)\<close>: an absent or empty \<^verbatim>\<open>guildId\<close> is falsy and disconnects every
  guild that has a connection.\<close>

definition cleanup :: "string option \<Rightarrow> manager \<Rightarrow> manager" where
  "cleanup guildId m =
     (case guildId of
        Some (c # cs) \<Rightarrow> snd (disconnect (c # cs) m)
      | _ \<Rightarrow>
          m\<lparr>connections := Map.empty,
            queues := (\<lambda>g. case connections m g of None \<Rightarrow> queues m g | Some _ \<Rightarrow> None)\<rparr>)"

section \<open>Joining a channel and the player's status events\<close>

definition newQueue :: queue where
  "newQueue =
     \<lparr> tracks = [], currentTrack = None, isPlaying = False, isPaused = False,
       volume = 100, loop = LoopNone, shuffle = False \<rparr>"

definition joinChannel :: "env \<Rightarrow> voice_channel \<Rightarrow> string option \<Rightarrow> manager \<Rightarrow> bool \<times> manager" where
  "joinChannel e vc tc m =
     (if \<not> entersReady e vc then (False, m)
      else
        (let m1 = m\<lparr>connections :=
                      (connections m)(vc_guild_id vc \<mapsto> \<lparr>voiceChannel = vc, textChannel = tc\<rparr>)\<rparr>
         in (True,
             (case queues m1 (vc_guild_id vc) of
                None \<Rightarrow> setQueue (vc_guild_id vc) newQueue m1
              | Some _ \<Rightarrow> m1))))"

text \<open>
  The three listeners \<^verbatim>\<open>joinChannel\<close> registers on the player. Each reads the guild's
  queue with \<^verbatim>\<open>this.queues.get(...)!\<close>; when the queue is gone, the first assignment
  throws a \<^verbatim>\<open>TypeError\<close> before anything is changed.
\<close>

definition on_Playing :: "string \<Rightarrow> manager \<Rightarrow> error + manager" where
  "on_Playing guildId m =
     (case queues m guildId of
        None \<Rightarrow> Inl TypeError
      | Some q \<Rightarrow> Inr (setQueue guildId (q\<lparr>isPlaying := True, isPaused := False\<rparr>) m))"

definition on_Paused :: "string \<Rightarrow> manager \<Rightarrow> error + manager" where
  "on_Paused guildId m =
     (case queues m guildId of
        None \<Rightarrow> Inl TypeError
      | Some q \<Rightarrow> Inr (setQueue guildId (q\<lparr>isPaused := True\<rparr>) m))"

definition on_Idle :: "env \<Rightarrow> string \<Rightarrow> manager \<Rightarrow> error + player_cmd list \<times> manager" where
  "on_Idle e guildId m =
     (case queues m guildId of
        None \<Rightarrow> Inl TypeError
      | Some q \<Rightarrow>
          Inr (playNext e guildId (setQueue guildId (q\<lparr>isPlaying := False, isPaused := False\<rparr>) m)))"

section \<open>The play command (commands handler)\<close>

text \<open>
  \<^verbatim>\<open>handlePlayCommand\<close>: \<open>memberChannel\<close> is \<^verbatim>\<open>member.voice.channel\<close>, \<open>guildId\<close> is
  \<^verbatim>\<open>interaction.guildId\<close>, \<open>user\<close> the requester built from \<^verbatim>\<open>interaction.user\<close>. The
  reply is the message the handler edits into the interaction.
\<close>

datatype reply =
    NotInVoiceChannel
  | AlreadyConnectedElsewhere
  | FailedToJoin
  | CouldNotFindTrack
  | TrackAdded track nat

definition addAndReply ::
  "env \<Rightarrow> string \<Rightarrow> string \<Rightarrow> requester \<Rightarrow> manager \<Rightarrow> (reply \<times> player_cmd list) \<times> manager" where
  "addAndReply e guildId query user m =
     (case addTrack e guildId query user m of
        ((None, cmds), m') \<Rightarrow> ((CouldNotFindTrack, cmds), m')
      | ((Some t, cmds), m') \<Rightarrow>
          ((TrackAdded t (case getQueue guildId m' of None \<Rightarrow> 0 | Some q \<Rightarrow> length (tracks q)), cmds),
           m'))"

definition handlePlayCommand ::
  "env \<Rightarrow> string \<Rightarrow> string \<Rightarrow> voice_channel option \<Rightarrow> string option \<Rightarrow> requester \<Rightarrow> manager
     \<Rightarrow> (reply \<times> player_cmd list) \<times> manager" where
  "handlePlayCommand e guildId query memberChannel tc user m =
     (case memberChannel of
        None \<Rightarrow> ((NotInVoiceChannel, []), m)
      | Some vc \<Rightarrow>
          (case getConnection guildId m of
             Some existingConnection \<Rightarrow>
               if vc_id (voiceChannel existingConnection) \<noteq> vc_id vc
               then ((AlreadyConnectedElsewhere, []), m)
               else addAndReply e guildId query user m
           | None \<Rightarrow>
               (case joinChannel e vc tc m of
                  (False, m') \<Rightarrow> ((FailedToJoin, []), m')
                | (True, m') \<Rightarrow> addAndReply e guildId query user m')))"

section \<open>Sequences of calls and events\<close>

text \<open>A run of \<^verbatim>\<open>addTrack\<close> calls on one guild, each with the providers' answers at
  the time of the call: the number of calls that returned a track, and the manager
  afterwards.\<close>

fun addTracks :: "string \<Rightarrow> (env \<times> string \<times> requester) list \<Rightarrow> manager \<Rightarrow> nat \<times> manager" where
  "addTracks guildId [] m = (0, m)"
| "addTracks guildId ((e, query, r) # calls) m =
     (case addTrack e guildId query r m of
        ((res, _), m') \<Rightarrow>
          (case addTracks guildId calls m' of
             (n, m'') \<Rightarrow> ((case res of None \<Rightarrow> 0 | Some _ \<Rightarrow> 1) + n, m'')))"

text \<open>The tracks a queue holds: the pending ones and the current one.\<close>

definition held :: "queue \<Rightarrow> nat" where
  "held q = length (tracks q) + (case currentTrack q of None \<Rightarrow> 0 | Some _ \<Rightarrow> 1)"

text \<open>
  What can happen to a manager: a call of one of its public methods, or a status event
  of a guild's player reaching the listener \<^verbatim>\<open>joinChannel\<close> registered. Each is
  taken as one atomic step, in the order the single-threaded event loop runs them.
\<close>

datatype event =
    JoinChannel env voice_channel "string option"
  | AddTrack env string string requester
  | Play env string
  | Pause string
  | Resume string
  | Skip string
  | Stop string
  | Shuffle "nat \<Rightarrow> real" string
  | SetVolume string int
  | RemoveTrack string int
  | Disconnect string
  | Cleanup "string option"
  | PlayerPlaying string
  | PlayerPaused string
  | PlayerIdle env string

fun step :: "event \<Rightarrow> manager \<Rightarrow> error + manager" where
  "step (JoinChannel e vc tc) m = Inr (snd (joinChannel e vc tc m))"
| "step (AddTrack e g query r) m = Inr (snd (addTrack e g query r m))"
| "step (Play e g) m = Inr m"
| "step (Pause g) m = Inr m"
| "step (Resume g) m = Inr m"
| "step (Skip g) m = Inr m"
| "step (Stop g) m = Inr (snd (stop g m))"
| "step (Shuffle rnd g) m = Inr (snd (shuffle_op rnd g m))"
| "step (SetVolume g v) m = Inr (snd (setVolume g v m))"
| "step (RemoveTrack g i) m = Inr (snd (removeTrack g i m))"
| "step (Disconnect g) m = Inr (snd (disconnect g m))"
| "step (Cleanup g) m = Inr (cleanup g m)"
| "step (PlayerPlaying g) m = on_Playing g m"
| "step (PlayerPaused g) m = on_Paused g m"
| "step (PlayerIdle e g) m = (case on_Idle e g m of Inl err \<Rightarrow> Inl err | Inr (_, m') \<Rightarrow> Inr m')"

fun run :: "event list \<Rightarrow> manager \<Rightarrow> error + manager" where
  "run [] m = Inr m"
| "run (ev # evs) m = (case step ev m of Inl err \<Rightarrow> Inl err | Inr m' \<Rightarrow> run evs m')"

text \<open>The manager the constructor builds, with or without Spotify credentials.\<close>

definition initialManager :: "spotify_api option \<Rightarrow> manager" where
  "initialManager sp = \<lparr> connections = Map.empty, queues = Map.empty, spotify = sp \<rparr>"

datatype player_status = Playing | Paused | Idle

fun statusEvent :: "string \<Rightarrow> event \<Rightarrow> player_status option" where
  "statusEvent g (PlayerPlaying g') = (if g = g' then Some Playing else None)"
| "statusEvent g (PlayerPaused g') = (if g = g' then Some Paused else None)"
| "statusEvent g (PlayerIdle e g') = (if g = g' then Some Idle else None)"
| "statusEvent g _ = None"

text \<open>The status the player of guild \<open>g\<close> reported last in a run of events.\<close>

fun lastStatus :: "string \<Rightarrow> event list \<Rightarrow> player_status option" where
  "lastStatus g [] = None"
| "lastStatus g (ev # evs) =
     (case lastStatus g evs of Some s \<Rightarrow> Some s | None \<Rightarrow> statusEvent g ev)"

text \<open>The playing flag and the paused flag of a queue.\<close>

definition flags :: "queue \<Rightarrow> bool \<times> bool" where
  "flags q = (isPlaying q, isPaused q)"

section \<open>Example data\<close>

definition alice :: requester where
  "alice = \<lparr> requester_id = ''1'', username = ''alice'', avatar = None \<rparr>"

definition trackA :: track where
  "trackA = \<lparr> track_id = ''a'', title = ''A'', duration = 60, thumbnail = None,
              url = ''https://youtu.be/a'', requester = alice, source = Youtube \<rparr>"

definition trackB :: track where
  "trackB = \<lparr> track_id = ''b'', title = ''B'', duration = 90, thumbnail = None,
              url = ''https://youtu.be/b'', requester = alice, source = Youtube \<rparr>"

definition trackC :: track where
  "trackC = \<lparr> track_id = ''c'', title = ''C'', duration = 30, thumbnail = None,
              url = ''https://youtu.be/c'', requester = alice, source = Youtube \<rparr>"

definition channelX :: voice_channel where
  "channelX = \<lparr> vc_id = ''x'', vc_guild_id = ''g'', vc_name = ''X'' \<rparr>"

definition channelY :: voice_channel where
  "channelY = \<lparr> vc_id = ''y'', vc_guild_id = ''g'', vc_name = ''Y'' \<rparr>"

definition queueOf :: "track list \<Rightarrow> track option \<Rightarrow> bool \<Rightarrow> queue" where
  "queueOf ts cur playing =
     \<lparr> tracks = ts, currentTrack = cur, isPlaying = playing, isPaused = False,
       volume = 100, loop = LoopNone, shuffle = False \<rparr>"

text \<open>A manager whose guild \<open>g\<close> is connected to channel X and has the queue \<open>q\<close>;
  Spotify is not configured.\<close>

definition managerOf :: "queue \<Rightarrow> manager" where
  "managerOf q =
     \<lparr> connections = [''g'' \<mapsto> \<lparr>voiceChannel = channelX, textChannel = None\<rparr>],
       queues = [''g'' \<mapsto> q],
       spotify = None \<rparr>"

text \<open>Providers that answer every search with one video named after the query, deliver
  every stream and let every connection become ready; the Spotify lookup fails.\<close>

definition videoFor :: "string \<Rightarrow> video" where
  "videoFor q =
     \<lparr> video_id = q, video_title = q, durationInSec = Some 60, thumbnails = [],
       video_url = ''https://youtu.be/'' @ q \<rparr>"

definition envAll :: env where
  "envAll =
     \<lparr> search = (\<lambda>q. Inr [videoFor q]),
       getTrack = (\<lambda>i. Inl ProviderFailure),
       stream = (\<lambda>u. True),
       entersReady = (\<lambda>vc. True) \<rparr>"

text \<open>Providers whose search finds nothing.\<close>

definition envNone :: env where
  "envNone =
     \<lparr> search = (\<lambda>q. Inr []),
       getTrack = (\<lambda>i. Inl ProviderFailure),
       stream = (\<lambda>u. True),
       entersReady = (\<lambda>vc. True) \<rparr>"

text \<open>Providers under which no voice connection becomes ready in time.\<close>

definition envDown :: env where
  "envDown =
     \<lparr> search = (\<lambda>q. Inr [videoFor q]),
       getTrack = (\<lambda>i. Inl ProviderFailure),
       stream = (\<lambda>u. True),
       entersReady = (\<lambda>vc. False) \<rparr>"

text \<open>The track every search of \<open>envAll\<close> for \<^verbatim>\<open>song\<close> resolves to.\<close>

definition song :: track where
  "song = videoTrack (videoFor ''song'') alice"

section \<open>Basic facts\<close>

lemma getQueue_setQueue: "getQueue g (setQueue g q m) = Some q"
  by (simp add: getQueue_def setQueue_def)

lemma getQueue_managerOf: "getQueue ''g'' (managerOf q) = Some q"
  by (simp add: getQueue_def managerOf_def)

lemma getConnection_managerOf:
  "getConnection ''g'' (managerOf q) = Some \<lparr>voiceChannel = channelX, textChannel = None\<rparr>"
  by (simp add: getConnection_def managerOf_def)

lemma playNext_cons:
  assumes "queues m g = Some q" "tracks q = t # ts"
  shows "snd (playNext e g m) = setQueue g (q\<lparr>tracks := ts, currentTrack := Some t\<rparr>) m"
  using assms by (simp add: playNext_def Let_def)

lemma resolve_song:
  "resolveQuery envAll m ''song'' alice = Inr (videoTrack (videoFor ''song'') alice)"
  by (simp add: resolveQuery_def isYouTubeUrl_def isSpotifyUrl_def youtubeWww_def
      youtubeHost_def searchYouTube_def envAll_def)

section \<open>Completion with an empty pending queue\<close>

text \<open>
  C1. When skip or natural completion occurs while the pending queue is empty and a
  current track exists, the controller should become idle and the current track empty.
  The completion listener clears both flags, but \<^verbatim>\<open>playNext\<close> returns early on an
  empty pending queue and leaves the finished track in \<^verbatim>\<open>currentTrack\<close>. Evaluated on
  a queue that plays track A with nothing pending: after the completion event the flags
  are off and the current track is still A; a track added afterwards is appended and is
  not started, since \<^verbatim>\<open>addTrack\<close> starts playback only when \<^verbatim>\<open>currentTrack\<close> is
  empty.
\<close>

theorem C1_idle_keeps_currentTrack:
  "on_Idle envAll ''g'' (managerOf (queueOf [] (Some trackA) True))
     = Inr ([], managerOf (queueOf [] (Some trackA) False))
   \<and> addTrack envAll ''g'' ''song'' alice (managerOf (queueOf [] (Some trackA) False))
     = ((Some (videoTrack (videoFor ''song'') alice), []),
        managerOf (queueOf [videoTrack (videoFor ''song'') alice] (Some trackA) False))"
  by (simp add: on_Idle_def playNext_def managerOf_def queueOf_def setQueue_def addTrack_def
      resolveQuery_def isYouTubeUrl_def isSpotifyUrl_def youtubeWww_def youtubeHost_def
      searchYouTube_def envAll_def)

section \<open>Skip with a non-empty pending queue\<close>

text \<open>
  C5. For every connected guild whose queue has a non-empty pending sequence, \<^verbatim>\<open>skip\<close>
  succeeds and stops the player, and the completion handler that the stop triggers makes
  the former head of the pending sequence the current track and leaves the rest pending:
  the pending sequence is shorter by exactly one.
\<close>

theorem C5_skip_advances:
  assumes "getConnection g m = Some c" and "getQueue g m = Some q" and "tracks q = t # ts"
  shows "skip g m = (True, [PlayerStop])
       \<and> (\<exists>cmds m' q'. on_Idle e g m = Inr (cmds, m') \<and> getQueue g m' = Some q'
            \<and> currentTrack q' = Some t \<and> tracks q' = ts
            \<and> Suc (length (tracks q')) = length (tracks q))"
proof -
  have s: "skip g m = (True, [PlayerStop])"
    using assms(1) by (simp add: skip_def getConnection_def)
  let ?m1 = "setQueue g (q\<lparr>isPlaying := False, isPaused := False\<rparr>) m"
  have q1: "queues ?m1 g = Some (q\<lparr>isPlaying := False, isPaused := False\<rparr>)"
    by (simp add: setQueue_def)
  have i: "on_Idle e g m = Inr (playNext e g ?m1)"
    using assms(2) by (simp add: on_Idle_def getQueue_def)
  have n: "snd (playNext e g ?m1)
      = setQueue g (q\<lparr>isPlaying := False, isPaused := False, tracks := ts, currentTrack := Some t\<rparr>) ?m1"
    using playNext_cons [OF q1, of t ts e] assms(3) by simp
  obtain cmds m' where p: "playNext e g ?m1 = (cmds, m')"
    by (cases "playNext e g ?m1")
  have "getQueue g (snd (playNext e g ?m1))
      = Some (q\<lparr>isPlaying := False, isPaused := False, tracks := ts, currentTrack := Some t\<rparr>)"
    unfolding n by (rule getQueue_setQueue)
  then have "getQueue g m'
      = Some (q\<lparr>isPlaying := False, isPaused := False, tracks := ts, currentTrack := Some t\<rparr>)"
    using p by simp
  then show ?thesis using s i p assms(3) by simp
qed

theorem C5_skip_advances_witness:
  "skip ''g'' (managerOf (queueOf [trackB, trackC] (Some trackA) True)) = (True, [PlayerStop])
   \<and> (\<exists>cmds m' q'. on_Idle envAll ''g'' (managerOf (queueOf [trackB, trackC] (Some trackA) True)) = Inr (cmds, m')
        \<and> getQueue ''g'' m' = Some q' \<and> currentTrack q' = Some trackB \<and> tracks q' = [trackC])"
proof -
  have t: "tracks (queueOf [trackB, trackC] (Some trackA) True) = trackB # [trackC]"
    by (simp add: queueOf_def)
  from C5_skip_advances [OF getConnection_managerOf getQueue_managerOf t, of envAll]
  show ?thesis by blast
qed

section \<open>Removing a pending track\<close>

text \<open>
  C7. For a guild with a queue, \<^verbatim>\<open>removeTrack\<close> fails exactly when the index is
  outside the range from 0 (included) to the pending length (excluded), in particular
  for \<open>-1\<close> and for the pending length, and a failed call leaves the manager unchanged.
  A successful call changes only the pending sequence of that queue: the entry at the
  index is gone, the entries before it keep their place, the entries after it move up by
  one, and the current track is untouched.
\<close>

theorem C7_removeTrack_range:
  assumes "getQueue g m = Some q"
  shows "(fst (removeTrack g i m) \<longleftrightarrow> 0 \<le> i \<and> i < int (length (tracks q)))
       \<and> \<not> fst (removeTrack g (- 1) m)
       \<and> \<not> fst (removeTrack g (int (length (tracks q))) m)
       \<and> (\<not> fst (removeTrack g i m) \<longrightarrow> snd (removeTrack g i m) = m)
       \<and> (fst (removeTrack g i m) \<longrightarrow>
            snd (removeTrack g i m)
              = setQueue g (q\<lparr>tracks := take (nat i) (tracks q) @ drop (Suc (nat i)) (tracks q)\<rparr>) m
            \<and> (\<exists>q'. getQueue g (snd (removeTrack g i m)) = Some q'
                 \<and> currentTrack q' = currentTrack q
                 \<and> Suc (length (tracks q')) = length (tracks q)
                 \<and> (\<forall>k < length (tracks q').
                      tracks q' ! k = (if k < nat i then tracks q ! k else tracks q ! Suc k))))"
proof -
  have q: "queues m g = Some q" using assms by (simp add: getQueue_def)
  have a: "(fst (removeTrack g i m) \<longleftrightarrow> 0 \<le> i \<and> i < int (length (tracks q)))" for i
    using q by (auto simp: removeTrack_def)
  have b: "\<not> fst (removeTrack g i m) \<longrightarrow> snd (removeTrack g i m) = m"
    using q by (auto simp: removeTrack_def)
  have c: "fst (removeTrack g i m) \<longrightarrow> snd (removeTrack g i m)
              = setQueue g (q\<lparr>tracks := take (nat i) (tracks q) @ drop (Suc (nat i)) (tracks q)\<rparr>) m"
    using q by (auto simp: removeTrack_def)
  have d: "Suc (length (take (nat i) xs @ drop (Suc (nat i)) xs)) = length xs
     \<and> (\<forall>k < length (take (nat i) xs @ drop (Suc (nat i)) xs).
          (take (nat i) xs @ drop (Suc (nat i)) xs) ! k = (if k < nat i then xs ! k else xs ! Suc k))"
    if "0 \<le> i" "i < int (length xs)" for xs :: "track list"
  proof -
    have n: "nat i < length xs" using that by linarith
    then show ?thesis by (auto simp: nth_append min_def)
  qed
  show ?thesis
  proof (intro conjI)
    show "fst (removeTrack g i m) \<longleftrightarrow> 0 \<le> i \<and> i < int (length (tracks q))" by (rule a)
    show "\<not> fst (removeTrack g (- 1) m)" by (simp add: a)
    show "\<not> fst (removeTrack g (int (length (tracks q))) m)" by (simp add: a)
    show "\<not> fst (removeTrack g i m) \<longrightarrow> snd (removeTrack g i m) = m" by (rule b)
    show "fst (removeTrack g i m) \<longrightarrow>
            snd (removeTrack g i m)
              = setQueue g (q\<lparr>tracks := take (nat i) (tracks q) @ drop (Suc (nat i)) (tracks q)\<rparr>) m
            \<and> (\<exists>q'. getQueue g (snd (removeTrack g i m)) = Some q'
                 \<and> currentTrack q' = currentTrack q
                 \<and> Suc (length (tracks q')) = length (tracks q)
                 \<and> (\<forall>k < length (tracks q').
                      tracks q' ! k = (if k < nat i then tracks q ! k else tracks q ! Suc k)))"
    proof
      assume f: "fst (removeTrack g i m)"
      then have r: "0 \<le> i" "i < int (length (tracks q))" using a by auto
      from c f have s: "snd (removeTrack g i m)
              = setQueue g (q\<lparr>tracks := take (nat i) (tracks q) @ drop (Suc (nat i)) (tracks q)\<rparr>) m"
        by simp
      show "snd (removeTrack g i m)
              = setQueue g (q\<lparr>tracks := take (nat i) (tracks q) @ drop (Suc (nat i)) (tracks q)\<rparr>) m
            \<and> (\<exists>q'. getQueue g (snd (removeTrack g i m)) = Some q'
                 \<and> currentTrack q' = currentTrack q
                 \<and> Suc (length (tracks q')) = length (tracks q)
                 \<and> (\<forall>k < length (tracks q').
                      tracks q' ! k = (if k < nat i then tracks q ! k else tracks q ! Suc k)))"
        using d [OF r] s by (simp add: getQueue_setQueue)
    qed
  qed
qed

theorem C7_removeTrack_range_witness:
  "fst (removeTrack ''g'' 1 (managerOf (queueOf [trackA, trackB, trackC] None True)))
   \<and> snd (removeTrack ''g'' 1 (managerOf (queueOf [trackA, trackB, trackC] None True)))
       = managerOf (queueOf [trackA, trackC] None True)
   \<and> \<not> fst (removeTrack ''g'' (- 1) (managerOf (queueOf [trackA, trackB, trackC] None True)))
   \<and> \<not> fst (removeTrack ''g'' 3 (managerOf (queueOf [trackA, trackB, trackC] None True)))
   \<and> snd (removeTrack ''g'' 3 (managerOf (queueOf [trackA, trackB, trackC] None True)))
       = managerOf (queueOf [trackA, trackB, trackC] None True)"
proof -
  let ?q = "queueOf [trackA, trackB, trackC] None True"
  have l: "int (length (tracks ?q)) = 3" by (simp add: queueOf_def)
  have e: "setQueue ''g'' (?q\<lparr>tracks := take (nat 1) (tracks ?q) @ drop (Suc (nat 1)) (tracks ?q)\<rparr>) (managerOf ?q)
      = managerOf (queueOf [trackA, trackC] None True)"
    by (simp add: setQueue_def managerOf_def queueOf_def)
  from C7_removeTrack_range [OF getQueue_managerOf, where q = ?q and i = 1]
       C7_removeTrack_range [OF getQueue_managerOf, where q = ?q and i = 3] l e
  show ?thesis by simp
qed

section \<open>Volume\<close>

text \<open>
  C8. For every integer \<open>v\<close> and every guild with a queue, \<^verbatim>\<open>setVolume\<close> succeeds and
  sets the volume to \<open>v\<close> clamped to the range from 0 to 100: 150 gives 100, \<open>-5\<close> gives 0,
  and the volume afterwards always lies between 0 and 100.
\<close>

theorem C8_setVolume_clamps:
  assumes "getQueue g m = Some q"
  shows "fst (setVolume g v m)
       \<and> getQueue g (snd (setVolume g v m))
           = Some (q\<lparr>volume := (if v < 0 then 0 else if 100 < v then 100 else v)\<rparr>)
       \<and> getQueue g (snd (setVolume g 150 m)) = Some (q\<lparr>volume := 100\<rparr>)
       \<and> getQueue g (snd (setVolume g (- 5) m)) = Some (q\<lparr>volume := 0\<rparr>)
       \<and> (\<exists>q'. getQueue g (snd (setVolume g v m)) = Some q' \<and> 0 \<le> volume q' \<and> volume q' \<le> 100)"
  using assms by (auto simp: setVolume_def getQueue_def setQueue_def max_def min_def)

theorem C8_setVolume_clamps_witness:
  "getQueue ''g'' (managerOf (queueOf [trackA] None False)) = Some (queueOf [trackA] None False)
   \<and> getQueue ''g'' (snd (setVolume ''g'' 150 (managerOf (queueOf [trackA] None False))))
       = Some ((queueOf [trackA] None False)\<lparr>volume := 100\<rparr>)"
proof -
  have h: "getQueue ''g'' (managerOf (queueOf [trackA] None False)) = Some (queueOf [trackA] None False)"
    by (rule getQueue_managerOf)
  from C8_setVolume_clamps [OF h, of 150] h show ?thesis by simp
qed

section \<open>Adding a track for a guild without a queue\<close>

text \<open>
  C10. For every guild with no registered queue, \<^verbatim>\<open>addTrack\<close> with a query that
  resolves returns the resolved track, not a failure; it creates no queue, sends nothing
  to a player and leaves the manager unchanged.
\<close>

theorem C10_addTrack_without_queue:
  assumes "getQueue g m = None" and "resolveQuery e m query r = Inr t"
  shows "addTrack e g query r m = ((Some t, []), m)"
  using assms by (simp add: addTrack_def getQueue_def)

theorem C10_addTrack_without_queue_witness:
  "getQueue ''h'' (managerOf (queueOf [] None False)) = None
   \<and> resolveQuery envAll (managerOf (queueOf [] None False)) ''song'' alice
       = Inr (videoTrack (videoFor ''song'') alice)
   \<and> addTrack envAll ''h'' ''song'' alice (managerOf (queueOf [] None False))
       = ((Some (videoTrack (videoFor ''song'') alice), []), managerOf (queueOf [] None False))"
proof -
  have h: "getQueue ''h'' (managerOf (queueOf [] None False)) = None"
    by (simp add: getQueue_def managerOf_def)
  from C10_addTrack_without_queue [OF h resolve_song] h resolve_song show ?thesis by simp
qed

section \<open>Shuffle\<close>


lemma random_index:
  assumes "0 \<le> r" and "r < 1"
  shows "nat \<lfloor>r * real (Suc n)\<rfloor> < Suc n"
proof -
  have "r * real (Suc n) < 1 * real (Suc n)"
    using assms(2) by (intro mult_strict_right_mono) simp_all
  then have "\<lfloor>r * real (Suc n)\<rfloor> < int (Suc n)"
    by (simp add: floor_less_iff)
  then show ?thesis by linarith
qed

lemma shuffleLoop_mset:
  assumes "\<forall>k. 0 \<le> rnd k \<and> rnd k < 1" and "i < length xs"
  shows "mset (shuffleLoop rnd k i xs) = mset xs"
  using assms(2)
proof (induction i arbitrary: k xs)
  case 0
  show ?case by simp
next
  case (Suc i)
  define j where "j = nat \<lfloor>rnd k * real (Suc i + 1)\<rfloor>"
  have "j < Suc (Suc i)"
    using random_index [of "rnd k" "Suc i"] assms(1) by (simp add: j_def)
  with Suc.prems have jl: "j < length xs" by simp
  have sw: "mset (xs[Suc i := xs ! j, j := xs ! Suc i]) = mset xs"
    using mset_swap [OF jl Suc.prems] .
  have "mset (shuffleLoop rnd (Suc k) i (xs[Suc i := xs ! j, j := xs ! Suc i]))
      = mset (xs[Suc i := xs ! j, j := xs ! Suc i])"
    using Suc.prems by (intro Suc.IH) simp
  then show ?case using sw by (simp add: Let_def j_def)
qed


lemma fisherYates_mset:
  assumes "\<forall>k. 0 \<le> rnd k \<and> rnd k < 1"
  shows "mset (fisherYates rnd xs) = mset xs"
proof (cases xs)
  case Nil
  then show ?thesis by (simp add: fisherYates_def)
next
  case (Cons x ys)
  then have "length xs - 1 < length xs" by simp
  from shuffleLoop_mset [OF assms this] show ?thesis by (simp add: fisherYates_def)
qed

lemma shuffle_op_queue:
  assumes "getQueue g m = Some q"
  shows "shuffle_op rnd g m
     = (True, setQueue g (q\<lparr>shuffle := \<not> shuffle q,
                            tracks := (if shuffle q then tracks q else fisherYates rnd (tracks q))\<rparr>) m)"
proof -
  have q: "queues m g = Some q" using assms by (simp add: getQueue_def)
  have small: "fisherYates rnd (tracks q) = tracks q" if "\<not> 1 < length (tracks q)"
  proof -
    from that have "length (tracks q) - 1 = 0" by simp
    then show ?thesis by (simp add: fisherYates_def)
  qed
  have same: "q\<lparr>shuffle := b, tracks := tracks q\<rparr> = q\<lparr>shuffle := b\<rparr>" for b by simp
  show ?thesis
    using q small by (auto simp: shuffle_op_def Let_def)
qed

text \<open>
  C9. For every guild with a queue, \<^verbatim>\<open>shuffle\<close> succeeds and flips the shuffle flag
  and changes nothing else but the pending order. When the flag goes from false to true
  the pending sequence is replaced by the result of the swap loop run on it, which is a
  permutation of it (the same multiset of tracks); when the flag goes from true to false
  the pending order stays as it is. The loop runs on every false-to-true edge: after
  on, off, on the pending sequence is the loop's result on the loop's earlier result.
  The random numbers \<open>r1\<close> and \<open>r3\<close> of the two runs lie in the interval from 0
  (included) to 1 (excluded), as \<^verbatim>\<open>Math.random()\<close> promises.
\<close>

theorem C9_toggleShuffle:
  assumes "getQueue g m = Some q"
    and "\<forall>k. 0 \<le> r1 k \<and> r1 k < 1" and "\<forall>k. 0 \<le> r3 k \<and> r3 k < 1"
  shows "fst (shuffle_op r1 g m)
       \<and> (\<exists>q'. getQueue g (snd (shuffle_op r1 g m)) = Some q'
            \<and> shuffle q' = (\<not> shuffle q)
            \<and> mset (tracks q') = mset (tracks q)
            \<and> (shuffle q \<longrightarrow> tracks q' = tracks q)
            \<and> (\<not> shuffle q \<longrightarrow> tracks q' = fisherYates r1 (tracks q))
            \<and> q' = q\<lparr>shuffle := shuffle q', tracks := tracks q'\<rparr>)
       \<and> (\<not> shuffle q \<longrightarrow>
            (\<exists>q3. getQueue g (snd (shuffle_op r3 g (snd (shuffle_op r2 g (snd (shuffle_op r1 g m))))))
                    = Some q3
               \<and> shuffle q3
               \<and> tracks q3 = fisherYates r3 (fisherYates r1 (tracks q))
               \<and> mset (tracks q3) = mset (tracks q)))"
proof -
  let ?q1 = "q\<lparr>shuffle := \<not> shuffle q,
               tracks := (if shuffle q then tracks q else fisherYates r1 (tracks q))\<rparr>"
  let ?m1 = "setQueue g ?q1 m"
  have s1: "shuffle_op r1 g m = (True, ?m1)"
    by (rule shuffle_op_queue [OF assms(1)])
  have g1: "getQueue g ?m1 = Some ?q1" by (rule getQueue_setQueue)
  have first: "fst (shuffle_op r1 g m)" using s1 by simp
  have second: "\<exists>q'. getQueue g (snd (shuffle_op r1 g m)) = Some q'
            \<and> shuffle q' = (\<not> shuffle q)
            \<and> mset (tracks q') = mset (tracks q)
            \<and> (shuffle q \<longrightarrow> tracks q' = tracks q)
            \<and> (\<not> shuffle q \<longrightarrow> tracks q' = fisherYates r1 (tracks q))
            \<and> q' = q\<lparr>shuffle := shuffle q', tracks := tracks q'\<rparr>"
    using g1 by (intro exI [of _ ?q1]) (simp add: s1 fisherYates_mset [OF assms(2)])
  have third: "\<exists>q3. getQueue g (snd (shuffle_op r3 g (snd (shuffle_op r2 g (snd (shuffle_op r1 g m))))))
                    = Some q3
               \<and> shuffle q3
               \<and> tracks q3 = fisherYates r3 (fisherYates r1 (tracks q))
               \<and> mset (tracks q3) = mset (tracks q)" if off: "\<not> shuffle q"
  proof -
    let ?q2 = "?q1\<lparr>shuffle := \<not> shuffle ?q1,
                 tracks := (if shuffle ?q1 then tracks ?q1 else fisherYates r2 (tracks ?q1))\<rparr>"
    let ?m2 = "setQueue g ?q2 ?m1"
    have s2: "shuffle_op r2 g ?m1 = (True, ?m2)"
      by (rule shuffle_op_queue [OF g1])
    have g2: "getQueue g ?m2 = Some ?q2" by (rule getQueue_setQueue)
    let ?q3 = "?q2\<lparr>shuffle := \<not> shuffle ?q2,
                 tracks := (if shuffle ?q2 then tracks ?q2 else fisherYates r3 (tracks ?q2))\<rparr>"
    let ?m3 = "setQueue g ?q3 ?m2"
    have s3: "shuffle_op r3 g ?m2 = (True, ?m3)"
      by (rule shuffle_op_queue [OF g2])
    have g3: "getQueue g ?m3 = Some ?q3" by (rule getQueue_setQueue)
    have t3: "tracks ?q3 = fisherYates r3 (fisherYates r1 (tracks q))"
      using off by simp
    have "mset (tracks ?q3) = mset (tracks q)"
      unfolding t3 by (simp add: fisherYates_mset [OF assms(3)] fisherYates_mset [OF assms(2)])
    moreover have "shuffle ?q3" using off by simp
    moreover have "snd (shuffle_op r3 g (snd (shuffle_op r2 g (snd (shuffle_op r1 g m))))) = ?m3"
      by (simp only: s1 s2 s3 snd_conv)
    ultimately show ?thesis
      using g3 t3 by (intro exI [of _ ?q3]) (simp only: simp_thms)
  qed
  from first second third show ?thesis by blast
qed

lemma fisherYates_half_ABC: "fisherYates (\<lambda>k. 1 / 2) [trackA, trackB, trackC] = [trackA, trackC, trackB]"
  by (simp add: fisherYates_def numeral_2_eq_2)

lemma fisherYates_half_ACB: "fisherYates (\<lambda>k. 1 / 2) [trackA, trackC, trackB] = [trackA, trackB, trackC]"
  by (simp add: fisherYates_def numeral_2_eq_2)

lemma shuffled_queue:
  "getQueue ''g'' (managerOf ((queueOf [trackA, trackB, trackC] None True)\<lparr>shuffle := True\<rparr>))
     = Some ((queueOf [trackA, trackB, trackC] None True)\<lparr>shuffle := True\<rparr>)"
  by (rule getQueue_managerOf)

theorem C9_toggleShuffle_witness:
  "(\<exists>q'. getQueue ''g'' (snd (shuffle_op (\<lambda>k. 1 / 2) ''g'' (managerOf (queueOf [trackA, trackB, trackC] None True)))) = Some q'
      \<and> shuffle q' \<and> tracks q' = [trackA, trackC, trackB])
   \<and> (\<exists>q3. getQueue ''g'' (snd (shuffle_op (\<lambda>k. 1 / 2) ''g'' (snd (shuffle_op (\<lambda>k. 1 / 2) ''g''
              (snd (shuffle_op (\<lambda>k. 1 / 2) ''g'' (managerOf (queueOf [trackA, trackB, trackC] None True)))))))) = Some q3
      \<and> shuffle q3 \<and> tracks q3 = [trackA, trackB, trackC])
   \<and> (\<exists>q'. getQueue ''g'' (snd (shuffle_op (\<lambda>k. 1 / 2) ''g''
              (managerOf ((queueOf [trackA, trackB, trackC] None True)\<lparr>shuffle := True\<rparr>)))) = Some q'
      \<and> \<not> shuffle q' \<and> tracks q' = [trackA, trackB, trackC])"
proof -
  let ?q = "queueOf [trackA, trackB, trackC] None True"
  have r: "\<forall>k::nat. (0::real) \<le> 1 / 2 \<and> (1::real) / 2 < 1" by simp
  have off: "\<not> shuffle ?q" by (simp add: queueOf_def)
  have t: "tracks ?q = [trackA, trackB, trackC]" by (simp add: queueOf_def)
  from C9_toggleShuffle [OF getQueue_managerOf r r, where q = ?q and ?r2.0 = "\<lambda>k. 1 / 2"] off
  have a: "(\<exists>q'. getQueue ''g'' (snd (shuffle_op (\<lambda>k. 1 / 2) ''g'' (managerOf ?q))) = Some q'
      \<and> shuffle q' \<and> tracks q' = [trackA, trackC, trackB])
   \<and> (\<exists>q3. getQueue ''g'' (snd (shuffle_op (\<lambda>k. 1 / 2) ''g'' (snd (shuffle_op (\<lambda>k. 1 / 2) ''g''
              (snd (shuffle_op (\<lambda>k. 1 / 2) ''g'' (managerOf ?q))))))) = Some q3
      \<and> shuffle q3 \<and> tracks q3 = [trackA, trackB, trackC])"
    by (auto simp: t fisherYates_half_ABC fisherYates_half_ACB)
  from C9_toggleShuffle [OF shuffled_queue r r, where ?r2.0 = "\<lambda>k. 1 / 2"]
  have b: "\<exists>q'. getQueue ''g'' (snd (shuffle_op (\<lambda>k. 1 / 2) ''g''
              (managerOf (?q\<lparr>shuffle := True\<rparr>)))) = Some q'
      \<and> \<not> shuffle q' \<and> tracks q' = [trackA, trackB, trackC]"
    by (auto simp: t)
  from a b show ?thesis by blast
qed

section \<open>Resolution of a Spotify track URL without the catalog provider\<close>

lemma startsWith_append: "startsWith p s \<Longrightarrow> \<exists>rest. s = p @ rest"
  by (induction p s rule: startsWith.induct) auto

lemma spotify_not_youtube:
  assumes "isSpotifyUrl u"
  shows "\<not> isYouTubeUrl u"
proof -
  from assms consider
      rest where "u = ''http://open.spotify.com/track/'' @ rest"
    | rest where "u = ''https://open.spotify.com/track/'' @ rest"
    unfolding isSpotifyUrl_def using startsWith_append by blast
  then show ?thesis
    by cases (simp_all add: isYouTubeUrl_def youtubeWww_def youtubeHost_def)
qed

lemma spotify_example: "isSpotifyUrl ''https://open.spotify.com/track/abc''"
  by (simp add: isSpotifyUrl_def)

text \<open>
  C3, as amended. When the query is a Spotify track URL and the catalog provider is
  unavailable (the Spotify client is not configured, or its lookup of the track is
  rejected), resolution fails, with \<^verbatim>\<open>Spotify not configured\<close> in the first case;
  \<^verbatim>\<open>addTrack\<close> returns no track and leaves the manager unchanged. No search with the raw
  query is made.
\<close>

theorem C3_spotify_unavailable_fails:
  assumes "isSpotifyUrl query"
    and "spotify m = None \<or> (\<exists>i err. extractSpotifyTrackId query = Some i \<and> getTrack e i = Inl err)"
  shows "(\<exists>err. resolveQuery e m query r = Inl err)
       \<and> (spotify m = None \<longrightarrow> resolveQuery e m query r = Inl SpotifyNotConfigured)
       \<and> addTrack e g query r m = ((None, []), m)"
proof -
  have d: "resolveQuery e m query r = getSpotifyTrack e m query r"
    using assms(1) spotify_not_youtube by (simp add: resolveQuery_def)
  have n: "spotify m = None \<longrightarrow> getSpotifyTrack e m query r = Inl SpotifyNotConfigured"
    by (simp add: getSpotifyTrack_def)
  have f: "\<exists>err. getSpotifyTrack e m query r = Inl err"
    using assms(2) by (auto simp: getSpotifyTrack_def split: option.splits)
  then have "addTrack e g query r m = ((None, []), m)"
    using d by (auto simp: addTrack_def)
  with d n f show ?thesis by simp
qed

lemma extract_example: "extractSpotifyTrackId ''https://open.spotify.com/track/abc'' = Some ''abc''"
  by (simp add: alnum_def)

theorem C3_spotify_unavailable_fails_witness:
  "isSpotifyUrl ''https://open.spotify.com/track/abc''
   \<and> spotify (managerOf (queueOf [] None False)) = None
   \<and> resolveQuery envAll (managerOf (queueOf [] None False)) ''https://open.spotify.com/track/abc'' alice
       = Inl SpotifyNotConfigured
   \<and> addTrack envAll ''g'' ''https://open.spotify.com/track/abc'' alice (managerOf (queueOf [] None False))
       = ((None, []), managerOf (queueOf [] None False))
   \<and> extractSpotifyTrackId ''https://open.spotify.com/track/abc'' = Some ''abc''
   \<and> getTrack envAll ''abc'' = Inl ProviderFailure
   \<and> addTrack envAll ''g'' ''https://open.spotify.com/track/abc'' alice
         ((managerOf (queueOf [] None False))\<lparr>spotify := Some SpotifyWebApi\<rparr>)
       = ((None, []), (managerOf (queueOf [] None False))\<lparr>spotify := Some SpotifyWebApi\<rparr>)"
proof -
  let ?m = "managerOf (queueOf [] None False)"
  let ?u = "''https://open.spotify.com/track/abc''"
  have s: "spotify ?m = None"
    by (simp add: managerOf_def)
  then have u: "spotify ?m = None
      \<or> (\<exists>i err. extractSpotifyTrackId ?u = Some i \<and> getTrack envAll i = Inl err)"
    by simp
  have t: "getTrack envAll ''abc'' = Inl ProviderFailure" by (simp add: envAll_def)
  with extract_example
  have v: "spotify (?m\<lparr>spotify := Some SpotifyWebApi\<rparr>) = None
      \<or> (\<exists>i err. extractSpotifyTrackId ?u = Some i \<and> getTrack envAll i = Inl err)"
    by blast
  from C3_spotify_unavailable_fails [OF spotify_example u, of alice "''g''"]
       C3_spotify_unavailable_fails [OF spotify_example v, of alice "''g''"]
       s spotify_example extract_example t
  show ?thesis by simp
qed

text \<open>
  C3 as stated fails: with Spotify not configured, a search of the primary provider
  with the raw query would find a video, and \<^verbatim>\<open>addTrack\<close> still returns no track.
\<close>

theorem C3_no_fallback_counterexample:
  "searchYouTube envAll ''https://open.spotify.com/track/abc'' alice
     = Inr (videoTrack (videoFor ''https://open.spotify.com/track/abc'') alice)
   \<and> addTrack envAll ''g'' ''https://open.spotify.com/track/abc'' alice (managerOf (queueOf [] None False))
     = ((None, []), managerOf (queueOf [] None False))"
  by (simp add: searchYouTube_def envAll_def addTrack_def resolveQuery_def isYouTubeUrl_def
      youtubeWww_def youtubeHost_def isSpotifyUrl_def getSpotifyTrack_def managerOf_def)

section \<open>Joining a channel, and the guard of the play command\<close>



lemma playNext_connections: "connections (snd (playNext e g m)) = connections m"
  by (simp add: playNext_def setQueue_def Let_def split: option.splits list.splits)

lemma addTrack_connections: "connections (snd (addTrack e g query r m)) = connections m"
proof (cases "resolveQuery e m query r")
  case (Inl err)
  then show ?thesis by (simp add: addTrack_def)
next
  case (Inr t)
  show ?thesis
  proof (cases "queues m g")
    case None
    with Inr show ?thesis by (simp add: addTrack_def)
  next
    case (Some q)
    let ?m' = "setQueue g (q\<lparr>tracks := tracks q @ [t]\<rparr>) m"
    have c: "connections ?m' = connections m" by (simp add: setQueue_def)
    have "connections (snd (playNext e g ?m')) = connections m"
      using playNext_connections [of e g ?m'] c by simp
    with Inr Some c show ?thesis
      by (auto simp: addTrack_def Let_def split: prod.splits)
  qed
qed

lemma addAndReply_connections: "connections (snd (addAndReply e g query user m)) = connections m"
  using addTrack_connections [of e g query user m]
  by (auto simp: addAndReply_def split: prod.splits option.splits)

lemma joinChannel_ready:
  assumes "entersReady e vc"
  shows "fst (joinChannel e vc tc m)
       \<and> getConnection (vc_guild_id vc) (snd (joinChannel e vc tc m))
           = Some \<lparr>voiceChannel = vc, textChannel = tc\<rparr>
       \<and> getQueue (vc_guild_id vc) (snd (joinChannel e vc tc m))
           = (case getQueue (vc_guild_id vc) m of None \<Rightarrow> Some newQueue | Some q \<Rightarrow> Some q)"
  using assms
  by (simp add: joinChannel_def getConnection_def getQueue_def setQueue_def Let_def
      split: option.splits)

lemma joinChannel_not_ready:
  assumes "\<not> entersReady e vc"
  shows "joinChannel e vc tc m = (False, m)"
  using assms by (simp add: joinChannel_def)

text \<open>
  C6, as amended. \<^verbatim>\<open>joinChannel\<close> makes no channel check of its own: whenever the
  voice connection becomes ready it succeeds and binds the guild to the channel it is
  given, whatever the guild was bound to before, and keeps an existing queue; when the
  connection does not become ready it fails and changes nothing. The guard is in the
  play command, the only caller of \<^verbatim>\<open>joinChannel\<close>. When the guild already has a
  connection bound to the member's channel, the command joins nothing: it goes on to add
  the track on the manager as it is, and the guild's connection is the existing one
  afterwards. When the connection is bound to a different channel, the command fails
  with the reply that the bot is already connected to a different voice channel, and
  the manager, its connection included, is unchanged.
\<close>

theorem C6_join_guard:
  assumes "getConnection g m = Some c"
  shows "(vc_guild_id vc = g \<and> entersReady e vc \<longrightarrow>
            fst (joinChannel e vc tc m)
            \<and> getConnection g (snd (joinChannel e vc tc m)) = Some \<lparr>voiceChannel = vc, textChannel = tc\<rparr>
            \<and> getQueue g (snd (joinChannel e vc tc m))
                = (case getQueue g m of None \<Rightarrow> Some newQueue | Some q \<Rightarrow> Some q))
       \<and> (\<not> entersReady e vc \<longrightarrow> joinChannel e vc tc m = (False, m))
       \<and> (vc_id (voiceChannel c) = vc_id vc \<longrightarrow>
            handlePlayCommand e g query (Some vc) tc user m = addAndReply e g query user m
            \<and> getConnection g (snd (handlePlayCommand e g query (Some vc) tc user m)) = Some c
            \<and> connections (snd (handlePlayCommand e g query (Some vc) tc user m)) = connections m)
       \<and> (vc_id (voiceChannel c) \<noteq> vc_id vc \<longrightarrow>
            handlePlayCommand e g query (Some vc) tc user m = ((AlreadyConnectedElsewhere, []), m))"
proof (intro conjI)
  show "vc_guild_id vc = g \<and> entersReady e vc \<longrightarrow>
            fst (joinChannel e vc tc m)
            \<and> getConnection g (snd (joinChannel e vc tc m)) = Some \<lparr>voiceChannel = vc, textChannel = tc\<rparr>
            \<and> getQueue g (snd (joinChannel e vc tc m))
                = (case getQueue g m of None \<Rightarrow> Some newQueue | Some q \<Rightarrow> Some q)"
    using joinChannel_ready [of e vc tc m] by blast
  show "\<not> entersReady e vc \<longrightarrow> joinChannel e vc tc m = (False, m)"
    using joinChannel_not_ready by blast
  show "vc_id (voiceChannel c) = vc_id vc \<longrightarrow>
            handlePlayCommand e g query (Some vc) tc user m = addAndReply e g query user m
            \<and> getConnection g (snd (handlePlayCommand e g query (Some vc) tc user m)) = Some c
            \<and> connections (snd (handlePlayCommand e g query (Some vc) tc user m)) = connections m"
    using assms addAndReply_connections [of e g query user m]
    by (simp add: handlePlayCommand_def getConnection_def)
  show "vc_id (voiceChannel c) \<noteq> vc_id vc \<longrightarrow>
            handlePlayCommand e g query (Some vc) tc user m = ((AlreadyConnectedElsewhere, []), m)"
    using assms by (simp add: handlePlayCommand_def getConnection_def)
qed

theorem C6_join_guard_witness:
  "handlePlayCommand envAll ''g'' ''song'' (Some channelX) None alice (managerOf (queueOf [] (Some trackA) True))
     = ((TrackAdded (videoTrack (videoFor ''song'') alice) 1, []),
        managerOf (queueOf [videoTrack (videoFor ''song'') alice] (Some trackA) True))
   \<and> getConnection ''g'' (snd (handlePlayCommand envAll ''g'' ''song'' (Some channelX) None alice
         (managerOf (queueOf [] (Some trackA) True))))
       = Some \<lparr>voiceChannel = channelX, textChannel = None\<rparr>
   \<and> handlePlayCommand envAll ''g'' ''song'' (Some channelY) None alice (managerOf (queueOf [] (Some trackA) True))
     = ((AlreadyConnectedElsewhere, []), managerOf (queueOf [] (Some trackA) True))
   \<and> fst (joinChannel envAll channelY None (managerOf (queueOf [] (Some trackA) True)))
   \<and> getConnection ''g'' (snd (joinChannel envAll channelY None (managerOf (queueOf [] (Some trackA) True))))
       = Some \<lparr>voiceChannel = channelY, textChannel = None\<rparr>
   \<and> getQueue ''g'' (snd (joinChannel envAll channelY None (managerOf (queueOf [] (Some trackA) True))))
       = Some (queueOf [] (Some trackA) True)
   \<and> joinChannel envDown channelY None (managerOf (queueOf [] (Some trackA) True))
       = (False, managerOf (queueOf [] (Some trackA) True))"
proof -
  let ?m = "managerOf (queueOf [] (Some trackA) True)"
  have a: "addAndReply envAll ''g'' ''song'' alice ?m
     = ((TrackAdded (videoTrack (videoFor ''song'') alice) 1, []),
        managerOf (queueOf [videoTrack (videoFor ''song'') alice] (Some trackA) True))"
    by (simp add: addAndReply_def addTrack_def resolve_song managerOf_def queueOf_def
        setQueue_def getQueue_def)
  have x: "vc_id (voiceChannel \<lparr>voiceChannel = channelX, textChannel = None\<rparr>) = vc_id channelX"
    by simp
  have y: "vc_id (voiceChannel \<lparr>voiceChannel = channelX, textChannel = None\<rparr>) \<noteq> vc_id channelY"
    by (simp add: channelX_def channelY_def)
  have r: "vc_guild_id channelY = ''g'' \<and> entersReady envAll channelY"
    by (simp add: channelY_def envAll_def)
  have d: "\<not> entersReady envDown channelY" by (simp add: envDown_def)
  note c = getConnection_managerOf [of "queueOf [] (Some trackA) True"]
  from C6_join_guard [OF c, where vc = channelX and e = envAll and query = "''song''"
                              and tc = None and user = alice]
       C6_join_guard [OF c, where vc = channelY and e = envAll and query = "''song''"
                              and tc = None and user = alice]
       C6_join_guard [OF c, where vc = channelY and e = envDown and query = "''song''"
                              and tc = None and user = alice] a x y r d
  show ?thesis by (simp add: getConnection_managerOf getQueue_managerOf)
qed

text \<open>
  C6 as stated fails on \<^verbatim>\<open>joinChannel\<close>: called with channel Y for a guild that is
  bound to channel X, it returns true and the guild is bound to channel Y.
\<close>

theorem C6_joinChannel_rebinds_counterexample:
  "getConnection ''g'' (managerOf (queueOf [] (Some trackA) True))
     = Some \<lparr>voiceChannel = channelX, textChannel = None\<rparr>
   \<and> vc_id channelX \<noteq> vc_id channelY
   \<and> joinChannel envAll channelY None (managerOf (queueOf [] (Some trackA) True))
     = (True, (managerOf (queueOf [] (Some trackA) True))
                \<lparr>connections := [''g'' \<mapsto> \<lparr>voiceChannel = channelY, textChannel = None\<rparr>]\<rparr>)"
  by (simp add: getConnection_managerOf,
      simp add: joinChannel_def envAll_def managerOf_def channelY_def channelX_def)

section \<open>Runs of addTrack calls\<close>


lemma addTrack_fail:
  assumes "resolveQuery e m query r = Inl err"
  shows "addTrack e g query r m = ((None, []), m)"
  using assms by (simp add: addTrack_def)

lemma addTrack_ok:
  assumes "resolveQuery e m query r = Inr t" and "getQueue g m = Some q"
  shows "fst (fst (addTrack e g query r m)) = Some t
       \<and> getQueue g (snd (addTrack e g query r m))
           = Some (if \<not> isPlaying q \<and> currentTrack q = None
                   then q\<lparr>tracks := tl (tracks q @ [t]), currentTrack := Some (hd (tracks q @ [t]))\<rparr>
                   else q\<lparr>tracks := tracks q @ [t]\<rparr>)"
proof -
  have q: "queues m g = Some q" using assms(2) by (simp add: getQueue_def)
  let ?q' = "q\<lparr>tracks := tracks q @ [t]\<rparr>"
  let ?m' = "setQueue g ?q' m"
  have q': "queues ?m' g = Some ?q'" by (simp add: setQueue_def)
  obtain x xs where c: "tracks ?q' = x # xs" by (cases "tracks q") auto
  then have hd_tl: "hd (tracks q @ [t]) = x" "tl (tracks q @ [t]) = xs" by simp_all
  show ?thesis
  proof (cases "\<not> isPlaying q \<and> currentTrack q = None")
    case True
    obtain cmds m'' where p: "playNext e g ?m' = (cmds, m'')" by (cases "playNext e g ?m'")
    have "m'' = setQueue g (?q'\<lparr>tracks := xs, currentTrack := Some x\<rparr>) ?m'"
      using playNext_cons [OF q' c, of e] p by simp
    then have "getQueue g m'' = Some (?q'\<lparr>tracks := xs, currentTrack := Some x\<rparr>)"
      by (simp add: getQueue_setQueue)
    moreover have "addTrack e g query r m = ((Some t, cmds), m'')"
      using assms(1) q True p by (simp add: addTrack_def Let_def)
    ultimately show ?thesis using True hd_tl by simp
  next
    case False
    then have "addTrack e g query r m = ((Some t, []), ?m')"
      using assms(1) q by (auto simp: addTrack_def Let_def)
    then show ?thesis using False by (auto simp: getQueue_setQueue)
  qed
qed

lemma addTrack_held:
  assumes "getQueue g m = Some q"
  shows "\<exists>q1. getQueue g (snd (addTrack e g query r m)) = Some q1
       \<and> held q1 = held q + (case fst (fst (addTrack e g query r m)) of None \<Rightarrow> 0 | Some _ \<Rightarrow> 1)
       \<and> ((isPlaying q \<or> currentTrack q \<noteq> None) \<longrightarrow>
            (isPlaying q1 \<or> currentTrack q1 \<noteq> None)
            \<and> length (tracks q1)
                = length (tracks q) + (case fst (fst (addTrack e g query r m)) of None \<Rightarrow> 0 | Some _ \<Rightarrow> 1))"
proof (cases "resolveQuery e m query r")
  case (Inl err)
  from addTrack_fail [OF Inl] assms show ?thesis by simp
next
  case (Inr t)
  have l: "length (tl (tracks q @ [t])) = length (tracks q)" by simp
  from addTrack_ok [OF Inr assms] show ?thesis
    by (auto simp: held_def l simp del: length_tl)
qed

lemma addTracks_held:
  assumes "getQueue g m = Some q"
  shows "\<exists>q'. getQueue g (snd (addTracks g calls m)) = Some q'
       \<and> held q' = held q + fst (addTracks g calls m)
       \<and> ((isPlaying q \<or> currentTrack q \<noteq> None) \<longrightarrow>
            length (tracks q') = length (tracks q) + fst (addTracks g calls m))"
  using assms
proof (induction calls arbitrary: m q)
  case Nil
  then show ?case by simp
next
  case (Cons call calls)
  obtain e query r where call: "call = (e, query, r)" by (cases call)
  obtain res cmds m1 where a: "addTrack e g query r m = ((res, cmds), m1)"
    by (cases "addTrack e g query r m") auto
  obtain n m2 where b: "addTracks g calls m1 = (n, m2)" by (cases "addTracks g calls m1")
  define k :: nat where "k = (case res of None \<Rightarrow> 0 | Some _ \<Rightarrow> 1)"
  from addTrack_held [OF Cons.prems, of e query r] a obtain q1 where
    q1: "getQueue g m1 = Some q1" "held q1 = held q + k"
      "(isPlaying q \<or> currentTrack q \<noteq> None) \<longrightarrow>
         (isPlaying q1 \<or> currentTrack q1 \<noteq> None) \<and> length (tracks q1) = length (tracks q) + k"
    by (auto simp: k_def)
  from Cons.IH [OF q1(1)] b obtain q' where
    q': "getQueue g m2 = Some q'" "held q' = held q1 + n"
      "(isPlaying q1 \<or> currentTrack q1 \<noteq> None) \<longrightarrow> length (tracks q') = length (tracks q1) + n"
    by auto
  have s: "addTracks g (call # calls) m = (k + n, m2)"
    by (simp add: call a b k_def)
  show ?case
    using q' q1 by (auto simp: s)
qed


lemma stream_envAll: "stream envAll u"
  by (simp add: envAll_def)

lemma addTrack_song_idle:
  "addTrack envAll ''g'' ''song'' alice (managerOf (queueOf [] None False))
     = ((Some song, [PlayerPlay (url song)]), managerOf (queueOf [] (Some song) False))"
  by (simp add: addTrack_def resolve_song managerOf_def queueOf_def setQueue_def playNext_def
      play_def stream_envAll Let_def song_def)

lemma addTrack_song_current:
  "addTrack envAll ''g'' ''song'' alice (managerOf (queueOf ts (Some t) False))
     = ((Some song, []), managerOf (queueOf (ts @ [song]) (Some t) False))"
  by (simp add: addTrack_def resolve_song managerOf_def queueOf_def setQueue_def song_def)

lemma addTrack_nothing:
  "addTrack envNone ''g'' ''nothing'' alice m = ((None, []), m)"
  by (simp add: addTrack_def resolveQuery_def isYouTubeUrl_def isSpotifyUrl_def youtubeWww_def
      youtubeHost_def searchYouTube_def envNone_def)

text \<open>
  C4, as amended. For every run of \<^verbatim>\<open>addTrack\<close> calls on a guild with a queue: a call
  whose resolution fails leaves the whole manager unchanged; a call whose resolution
  succeeds returns the track and appends it to the tail of the pending sequence, and
  then, when the queue is not playing and has no current track, moves the head of the
  pending sequence into the current track (the auto-start). So the number of tracks the
  queue holds, pending plus current, grows by the number of successful resolutions; the
  pending length alone grows by that number when the queue was playing or had a current
  track before the calls.
\<close>

theorem C4_addTrack_sequence:
  assumes "getQueue g m = Some q"
  shows "((\<exists>err. resolveQuery e m query r = Inl err) \<longrightarrow> addTrack e g query r m = ((None, []), m))
       \<and> (\<forall>t. resolveQuery e m query r = Inr t \<longrightarrow>
            fst (fst (addTrack e g query r m)) = Some t
            \<and> getQueue g (snd (addTrack e g query r m))
                = Some (if \<not> isPlaying q \<and> currentTrack q = None
                        then q\<lparr>tracks := tl (tracks q @ [t]), currentTrack := Some (hd (tracks q @ [t]))\<rparr>
                        else q\<lparr>tracks := tracks q @ [t]\<rparr>))
       \<and> (\<exists>q'. getQueue g (snd (addTracks g calls m)) = Some q'
            \<and> held q' = held q + fst (addTracks g calls m)
            \<and> ((isPlaying q \<or> currentTrack q \<noteq> None) \<longrightarrow>
                 length (tracks q') = length (tracks q) + fst (addTracks g calls m)))"
proof (intro conjI)
  show "(\<exists>err. resolveQuery e m query r = Inl err) \<longrightarrow> addTrack e g query r m = ((None, []), m)"
    using addTrack_fail by blast
  show "\<forall>t. resolveQuery e m query r = Inr t \<longrightarrow>
            fst (fst (addTrack e g query r m)) = Some t
            \<and> getQueue g (snd (addTrack e g query r m))
                = Some (if \<not> isPlaying q \<and> currentTrack q = None
                        then q\<lparr>tracks := tl (tracks q @ [t]), currentTrack := Some (hd (tracks q @ [t]))\<rparr>
                        else q\<lparr>tracks := tracks q @ [t]\<rparr>)"
    using addTrack_ok [OF _ assms] by blast
  show "\<exists>q'. getQueue g (snd (addTracks g calls m)) = Some q'
            \<and> held q' = held q + fst (addTracks g calls m)
            \<and> ((isPlaying q \<or> currentTrack q \<noteq> None) \<longrightarrow>
                 length (tracks q') = length (tracks q) + fst (addTracks g calls m))"
    by (rule addTracks_held [OF assms])
qed

lemma addTracks_on_playing:
  "addTracks ''g'' [(envAll, ''song'', alice), (envNone, ''nothing'', alice), (envAll, ''song'', alice)]
      (managerOf (queueOf [] (Some trackA) False))
     = (2, managerOf (queueOf [song, song] (Some trackA) False))"
  by (simp add: addTrack_nothing addTrack_song_current)

theorem C4_addTrack_sequence_witness:
  "addTrack envNone ''g'' ''nothing'' alice (managerOf (queueOf [] None False))
     = ((None, []), managerOf (queueOf [] None False))
   \<and> getQueue ''g'' (snd (addTrack envAll ''g'' ''song'' alice (managerOf (queueOf [] None False))))
       = Some (queueOf [] (Some song) False)
   \<and> held (queueOf [song] (Some song) False) = 2
   \<and> addTracks ''g'' [(envAll, ''song'', alice), (envNone, ''nothing'', alice), (envAll, ''song'', alice)]
        (managerOf (queueOf [] None False))
       = (2, managerOf (queueOf [song] (Some song) False))
   \<and> addTracks ''g'' [(envAll, ''song'', alice), (envNone, ''nothing'', alice), (envAll, ''song'', alice)]
        (managerOf (queueOf [] (Some trackA) False))
       = (2, managerOf (queueOf [song, song] (Some trackA) False))
   \<and> length (tracks (queueOf [song, song] (Some trackA) False))
       = length (tracks (queueOf [] (Some trackA) False)) + 2"
proof -
  let ?m = "managerOf (queueOf [] None False)"
  let ?calls = "[(envAll, ''song'', alice), (envNone, ''nothing'', alice), (envAll, ''song'', alice)]"
  have f: "\<exists>err. resolveQuery envNone ?m ''nothing'' alice = Inl err"
    by (simp add: resolveQuery_def isYouTubeUrl_def isSpotifyUrl_def youtubeWww_def
        youtubeHost_def searchYouTube_def envNone_def)
  have s: "resolveQuery envAll ?m ''song'' alice = Inr song"
    by (simp add: resolve_song song_def)
  have r: "addTracks ''g'' ?calls ?m = (2, managerOf (queueOf [song] (Some song) False))"
    by (simp add: addTrack_song_idle addTrack_nothing addTrack_song_current)
  have q: "(if \<not> isPlaying (queueOf [] None False) \<and> currentTrack (queueOf [] None False) = None
            then (queueOf [] None False)\<lparr>tracks := tl (tracks (queueOf [] None False) @ [song]),
                   currentTrack := Some (hd (tracks (queueOf [] None False) @ [song]))\<rparr>
            else (queueOf [] None False)\<lparr>tracks := tracks (queueOf [] None False) @ [song]\<rparr>)
         = queueOf [] (Some song) False"
    by (simp add: queueOf_def)
  from C4_addTrack_sequence [OF getQueue_managerOf, where e = envNone and query = "''nothing''"
         and r = alice and calls = ?calls and q = "queueOf [] None False"] f
  have a: "addTrack envNone ''g'' ''nothing'' alice ?m = ((None, []), ?m)"
    by blast
  from C4_addTrack_sequence [OF getQueue_managerOf, where e = envAll and query = "''song''"
         and r = alice and calls = ?calls and q = "queueOf [] None False"] s
  have b: "getQueue ''g'' (snd (addTrack envAll ''g'' ''song'' alice ?m))
       = Some (queueOf [] (Some song) False)
     \<and> (\<exists>q'. getQueue ''g'' (snd (addTracks ''g'' ?calls ?m)) = Some q'
          \<and> held q' = held (queueOf [] None False) + fst (addTracks ''g'' ?calls ?m))"
    unfolding q [symmetric] by blast
  then have h: "held (queueOf [song] (Some song) False) = 2"
    by (simp add: r getQueue_managerOf held_def queueOf_def)
  have c: "currentTrack (queueOf [] (Some trackA) False) \<noteq> None" by (simp add: queueOf_def)
  from C4_addTrack_sequence [OF getQueue_managerOf, where e = envAll and query = "''song''"
         and r = alice and calls = ?calls and q = "queueOf [] (Some trackA) False"] c
  have "\<exists>q'. getQueue ''g'' (snd (addTracks ''g'' ?calls (managerOf (queueOf [] (Some trackA) False))))
            = Some q'
          \<and> length (tracks q') = length (tracks (queueOf [] (Some trackA) False))
               + fst (addTracks ''g'' ?calls (managerOf (queueOf [] (Some trackA) False)))"
    by blast
  then have l: "length (tracks (queueOf [song, song] (Some trackA) False))
       = length (tracks (queueOf [] (Some trackA) False)) + 2"
    unfolding addTracks_on_playing by (simp add: getQueue_managerOf)
  from a b h l show ?thesis
    unfolding r addTracks_on_playing by simp
qed

text \<open>
  C4 as stated fails on an idle, empty queue: one successful call, and the pending
  sequence is empty afterwards, the track having become the current one.
\<close>

theorem C4_pending_length_counterexample:
  "addTracks ''g'' [(envAll, ''song'', alice)] (managerOf (queueOf [] None False))
     = (1, managerOf (queueOf [] (Some song) False))
   \<and> length (tracks (queueOf [] (Some song) False)) = 0"
  by (simp add: addTrack_song_idle, simp add: queueOf_def)

section \<open>The playing and paused flags\<close>



text \<open>What one step does to the two flags of a guild's queue: every public method keeps
  them (or the queue is new, with both off); only the player's status events set them.\<close>

lemma run_snoc:
  "run (evs @ [ev]) m = (case run evs m of Inl err \<Rightarrow> Inl err | Inr m' \<Rightarrow> step ev m')"
  by (induction evs arbitrary: m) (simp_all split: sum.splits)

lemma lastStatus_snoc:
  "lastStatus g (evs @ [ev])
     = (case statusEvent g ev of Some s \<Rightarrow> Some s | None \<Rightarrow> lastStatus g evs)"
  by (induction evs) (simp_all split: option.splits)

lemma playNext_flags:
  assumes "queues (snd (playNext e g' m)) g = Some q'"
  shows "map_option flags (queues m g) = Some (flags q')"
  using assms
  by (auto simp: playNext_def setQueue_def flags_def Let_def split: option.splits list.splits if_splits)

lemma addTrack_flags:
  assumes "queues (snd (addTrack e g' query r m)) g = Some q'"
  shows "map_option flags (queues m g) = Some (flags q')"
proof (cases "resolveQuery e m query r")
  case (Inl err)
  with assms show ?thesis by (simp add: addTrack_def)
next
  case (Inr t)
  show ?thesis
  proof (cases "queues m g'")
    case None
    with Inr assms show ?thesis by (simp add: addTrack_def)
  next
    case (Some q)
    let ?m' = "setQueue g' (q\<lparr>tracks := tracks q @ [t]\<rparr>) m"
    have f: "map_option flags (queues ?m' g) = map_option flags (queues m g)"
      using Some by (simp add: setQueue_def flags_def)
    show ?thesis
    proof (cases "\<not> isPlaying q \<and> currentTrack q = None")
      case True
      then have "snd (addTrack e g' query r m) = snd (playNext e g' ?m')"
        using Inr Some by (simp add: addTrack_def Let_def split: prod.splits)
      with assms playNext_flags [of e g' ?m' g q'] f show ?thesis by simp
    next
      case False
      then have "snd (addTrack e g' query r m) = ?m'"
        using Inr Some by (auto simp: addTrack_def Let_def)
      with assms f show ?thesis by simp
    qed
  qed
qed

lemma joinChannel_flags:
  assumes "queues (snd (joinChannel e vc tc m)) g = Some q'"
  shows "flags q' = (False, False) \<or> map_option flags (queues m g) = Some (flags q')"
  using assms
  by (auto simp: joinChannel_def setQueue_def newQueue_def flags_def Let_def
      split: option.splits if_splits)

lemma stop_flags:
  assumes "queues (snd (stop g' m)) g = Some q'"
  shows "map_option flags (queues m g) = Some (flags q')"
  using assms
  by (auto simp: stop_def setQueue_def flags_def split: option.splits if_splits)

lemma shuffle_op_flags:
  assumes "queues (snd (shuffle_op rnd g' m)) g = Some q'"
  shows "map_option flags (queues m g) = Some (flags q')"
  using assms
  by (auto simp: shuffle_op_def setQueue_def flags_def Let_def split: option.splits if_splits)

lemma setVolume_flags:
  assumes "queues (snd (setVolume g' v m)) g = Some q'"
  shows "map_option flags (queues m g) = Some (flags q')"
  using assms
  by (auto simp: setVolume_def setQueue_def flags_def split: option.splits if_splits)

lemma removeTrack_flags:
  assumes "queues (snd (removeTrack g' i m)) g = Some q'"
  shows "map_option flags (queues m g) = Some (flags q')"
  using assms
  by (auto simp: removeTrack_def setQueue_def flags_def split: option.splits if_splits)

lemma disconnect_flags:
  assumes "queues (snd (disconnect g' m)) g = Some q'"
  shows "map_option flags (queues m g) = Some (flags q')"
  using assms
  by (auto simp: disconnect_def split: option.splits if_splits)

lemma cleanup_flags:
  assumes "queues (cleanup go m) g = Some q'"
  shows "map_option flags (queues m g) = Some (flags q')"
proof (cases "\<exists>c cs. go = Some (c # cs)")
  case True
  then obtain c cs where "go = Some (c # cs)" by blast
  with assms disconnect_flags [of "c # cs" m g q'] show ?thesis by (simp add: cleanup_def)
next
  case False
  then have "go = None \<or> go = Some []" by (cases go; cases "the go") auto
  with assms show ?thesis
    by (auto simp: cleanup_def split: option.splits)
qed

lemma on_Playing_flags:
  assumes "on_Playing g' m = Inr m'" and "queues m' g = Some q'"
  shows "if g = g' then flags q' = (True, False) else map_option flags (queues m g) = Some (flags q')"
  using assms
  by (auto simp: on_Playing_def setQueue_def flags_def split: option.splits if_splits)

lemma on_Paused_flags:
  assumes "on_Paused g' m = Inr m'" and "queues m' g = Some q'" and "g \<noteq> g'"
  shows "map_option flags (queues m g) = Some (flags q')"
  using assms
  by (auto simp: on_Paused_def setQueue_def flags_def split: option.splits if_splits)

lemma on_Idle_flags:
  assumes "on_Idle e g' m = Inr (cmds, m')" and "queues m' g = Some q'"
  shows "if g = g' then flags q' = (False, False) else map_option flags (queues m g) = Some (flags q')"
proof -
  from assms(1) obtain q where q: "queues m g' = Some q"
    and p: "playNext e g' (setQueue g' (q\<lparr>isPlaying := False, isPaused := False\<rparr>) m) = (cmds, m')"
    by (auto simp: on_Idle_def split: option.splits)
  let ?m1 = "setQueue g' (q\<lparr>isPlaying := False, isPaused := False\<rparr>) m"
  from playNext_flags [of e g' ?m1 g q'] p assms(2)
  have "map_option flags (queues ?m1 g) = Some (flags q')" by simp
  then show ?thesis
    by (auto simp: setQueue_def flags_def split: if_splits)
qed

lemma step_flags:
  assumes "step ev m = Inr m'" and "queues m' g = Some q'"
  shows "case statusEvent g ev of
           Some Playing \<Rightarrow> flags q' = (True, False)
         | Some Idle \<Rightarrow> flags q' = (False, False)
         | Some Paused \<Rightarrow> True
         | None \<Rightarrow> flags q' = (False, False) \<or> map_option flags (queues m g) = Some (flags q')"
proof (cases ev)
  case (JoinChannel e vc tc)
  with assms joinChannel_flags [of e vc tc m g q'] show ?thesis by auto
next
  case (AddTrack e g' query r)
  with assms addTrack_flags [of e g' query r m g q'] show ?thesis by auto
next
  case (Play e g')
  with assms show ?thesis by auto
next
  case (Pause g')
  with assms show ?thesis by auto
next
  case (Resume g')
  with assms show ?thesis by auto
next
  case (Skip g')
  with assms show ?thesis by auto
next
  case (Stop g')
  with assms stop_flags [of g' m g q'] show ?thesis by auto
next
  case (Shuffle rnd g')
  with assms shuffle_op_flags [of rnd g' m g q'] show ?thesis by auto
next
  case (SetVolume g' v)
  with assms setVolume_flags [of g' v m g q'] show ?thesis by auto
next
  case (RemoveTrack g' i)
  with assms removeTrack_flags [of g' i m g q'] show ?thesis by auto
next
  case (Disconnect g')
  with assms disconnect_flags [of g' m g q'] show ?thesis by auto
next
  case (Cleanup go)
  with assms cleanup_flags [of go m g q'] show ?thesis by auto
next
  case (PlayerPlaying g')
  with assms on_Playing_flags [of g' m m' g q'] show ?thesis by auto
next
  case (PlayerPaused g')
  with assms on_Paused_flags [of g' m m' g q'] show ?thesis by auto
next
  case (PlayerIdle e g')
  with assms(1) obtain cmds where "on_Idle e g' m = Inr (cmds, m')"
    by (auto split: sum.splits)
  from on_Idle_flags [OF this assms(2)] PlayerIdle show ?thesis by auto
qed

lemma run_flags:
  assumes "\<forall>g q. queues m0 g = Some q \<longrightarrow> flags q \<noteq> (True, True)"
  shows "run evs m0 = Inr m \<Longrightarrow> queues m g = Some q \<Longrightarrow> lastStatus g evs \<noteq> Some Paused
           \<Longrightarrow> flags q \<noteq> (True, True)"
proof (induction evs arbitrary: m q rule: rev_induct)
  case Nil
  then show ?case using assms by simp
next
  case (snoc ev evs)
  from snoc.prems(1) obtain m1 where r: "run evs m0 = Inr m1" and s: "step ev m1 = Inr m"
    by (auto simp: run_snoc split: sum.splits)
  note f = step_flags [OF s snoc.prems(2)]
  show ?case
  proof (cases "statusEvent g ev")
    case None
    with snoc.prems(3) have l: "lastStatus g evs \<noteq> Some Paused" by (simp add: lastStatus_snoc)
    from f None consider "flags q = (False, False)"
      | q1 where "queues m1 g = Some q1" "flags q1 = flags q" by auto
    then show ?thesis
    proof cases
      case 1
      then show ?thesis by simp
    next
      case 2
      with snoc.IH [OF r 2(1) l] show ?thesis by simp
    qed
  next
    case (Some st)
    with snoc.prems(3) have "st \<noteq> Paused" by (simp add: lastStatus_snoc)
    with f Some show ?thesis by (cases st) auto
  qed
qed

text \<open>
  C2, as amended. For every manager reached from a fresh one through the public methods
  and the player's status events, and every guild queue in it: the playing flag and the
  paused flag are not both true, unless the last status the guild's player reported is
  Paused. The Paused listener sets the paused flag and leaves the playing flag as it
  is, so a queue paused while playing carries both.
\<close>

theorem C2_flags_reachable:
  assumes "run evs (initialManager sp) = Inr m" and "getQueue g m = Some q"
    and "lastStatus g evs \<noteq> Some Paused"
  shows "\<not> (isPlaying q \<and> isPaused q)"
proof -
  have i: "\<forall>g q. queues (initialManager sp) g = Some q \<longrightarrow> flags q \<noteq> (True, True)"
    by (simp add: initialManager_def)
  from assms(2) have "queues m g = Some q" by (simp add: getQueue_def)
  from run_flags [OF i assms(1) this assms(3)] show ?thesis by (simp add: flags_def)
qed


lemma join_fresh:
  "joinChannel envAll channelX None (initialManager None) = (True, managerOf (queueOf [] None False))"
  by (simp add: joinChannel_def envAll_def initialManager_def managerOf_def queueOf_def
      newQueue_def setQueue_def channelX_def)

lemma on_Playing_managerOf:
  "on_Playing ''g'' (managerOf q) = Inr (managerOf (q\<lparr>isPlaying := True, isPaused := False\<rparr>))"
  by (simp add: on_Playing_def managerOf_def setQueue_def)

lemma on_Paused_managerOf:
  "on_Paused ''g'' (managerOf q) = Inr (managerOf (q\<lparr>isPaused := True\<rparr>))"
  by (simp add: on_Paused_def managerOf_def setQueue_def)

lemma run_to_playing:
  "run [JoinChannel envAll channelX None, AddTrack envAll ''g'' ''song'' alice, PlayerPlaying ''g'']
       (initialManager None)
     = Inr (managerOf (queueOf [] (Some song) True))"
  by (simp add: join_fresh addTrack_song_idle on_Playing_managerOf, simp add: queueOf_def)

theorem C2_flags_reachable_witness:
  "run [JoinChannel envAll channelX None, AddTrack envAll ''g'' ''song'' alice, PlayerPlaying ''g'']
       (initialManager None)
     = Inr (managerOf (queueOf [] (Some song) True))
   \<and> lastStatus ''g''
        [JoinChannel envAll channelX None, AddTrack envAll ''g'' ''song'' alice, PlayerPlaying ''g'']
       = Some Playing
   \<and> \<not> (isPlaying (queueOf [] (Some song) True) \<and> isPaused (queueOf [] (Some song) True))"
proof -
  let ?evs = "[JoinChannel envAll channelX None, AddTrack envAll ''g'' ''song'' alice, PlayerPlaying ''g'']"
  have l: "lastStatus ''g'' ?evs = Some Playing" by simp
  then have n: "lastStatus ''g'' ?evs \<noteq> Some Paused" by simp
  from C2_flags_reachable [OF run_to_playing getQueue_managerOf n] run_to_playing l
  show ?thesis by simp
qed

text \<open>
  C2 as stated fails in the paused state: join, add a track, the player reports
  Playing, \<^verbatim>\<open>pause\<close> is called, the player reports Paused; both flags are true.
\<close>

theorem C2_paused_counterexample:
  "run [JoinChannel envAll channelX None, AddTrack envAll ''g'' ''song'' alice, PlayerPlaying ''g'',
        Pause ''g'', PlayerPaused ''g'']
       (initialManager None)
     = Inr (managerOf ((queueOf [] (Some song) True)\<lparr>isPaused := True\<rparr>))
   \<and> isPlaying ((queueOf [] (Some song) True)\<lparr>isPaused := True\<rparr>)
   \<and> isPaused ((queueOf [] (Some song) True)\<lparr>isPaused := True\<rparr>)"
  by (simp add: join_fresh addTrack_song_idle on_Playing_managerOf on_Paused_managerOf,
      simp add: queueOf_def)

end
